theory Spec2Isabelle
  imports Complex_Main
begin

section \<open>Numbers and exceptions\<close>

text \<open>
  The program computes with Python floats. They are modelled by the real numbers:
  rounding, overflow and NaN are outside this development, and every statement below is
  a statement about the exact arithmetic of the formulas the source writes. The only
  non-finite floats the source itself creates are \<^verbatim>\<open>float('inf')\<close> and
  \<^verbatim>\<open>float('-inf')\<close>, the start values of the bounding-box accumulators; they are
  the two extra values of \<open>ext\<close>.
\<close>

datatype ext = NegInf | Fin real | PosInf

text \<open>The comparison \<^verbatim>\<open>a < b\<close> of two floats.\<close>

fun lt_ext :: "ext \<Rightarrow> ext \<Rightarrow> bool" where
  "lt_ext (Fin a) (Fin b) = (a < b)"
| "lt_ext PosInf _ = False"
| "lt_ext _ NegInf = False"
| "lt_ext NegInf _ = True"
| "lt_ext _ PosInf = True"

text \<open>
  Python's \<^verbatim>\<open>min(a, b)\<close> and \<^verbatim>\<open>max(a, b)\<close>: the first argument is kept unless the
  second is strictly smaller (larger). \<^verbatim>\<open>min(a, b, c)\<close> scans from the left, so it is
  \<open>min_ext (min_ext a b) c\<close>.
\<close>

definition min_ext :: "ext \<Rightarrow> ext \<Rightarrow> ext" where
  "min_ext a b = (if lt_ext b a then b else a)"

definition max_ext :: "ext \<Rightarrow> ext \<Rightarrow> ext" where
  "max_ext a b = (if lt_ext a b then b else a)"

text \<open>The exceptions that the modelled code raises or catches.\<close>

datatype exn =
    FileNotFoundError
  | ValueError string
  | AttributeError
  | ZeroDivisionError
  | OverflowError
  | OtherException string

text \<open>Float division \<^verbatim>\<open>a / b\<close>, which raises on a zero divisor.\<close>

definition py_div :: "real \<Rightarrow> real \<Rightarrow> exn + real" where
  "py_div a b = (if b = 0 then Inl ZeroDivisionError else Inr (a / b))"

section \<open>Entities\<close>

text \<open>
  The objects of the modelspace, by their \<^verbatim>\<open>dxftype()\<close>, each with the attributes the
  program reads. A point is the pair of its \<^verbatim>\<open>x\<close> and \<^verbatim>\<open>y\<close>. \<open>POLYLINE\<close> carries
  \<^verbatim>\<open>is_3d_polyline\<close> and the locations of its vertices; the polyline class of ezdxf has
  no attribute \<^verbatim>\<open>is_3d_mesh\<close>. \<open>ARC\<close> carries its centre, radius, start angle and end
  angle (in degrees); \<open>ELLIPSE\<close> its centre, major axis, ratio, start and end parameter.
  \<open>OTHER\<close> is an entity of any other type.
  \<open>MALFORMED ex\<close> is an entity of one of the types the bounding-box loop handles whose
  attribute access raises \<open>ex\<close>: every branch of that loop reads all its attributes before
  it assigns to an accumulator, so such an entity raises before it changes anything.
\<close>

datatype vec = Vec (vx: real) (vy: real)

datatype entity =
    LINE vec vec
  | CIRCLE vec real
  | ARC vec real real real
  | LWPOLYLINE "vec list"
  | POLYLINE bool "vec list"
  | ELLIPSE vec vec real real real
  | SPLINE "vec list"
  | POINT vec
  | TEXT vec
  | OTHER string
  | MALFORMED exn

section \<open>The bounding box\<close>

text \<open>The four accumulators \<^verbatim>\<open>min_x, min_y, max_x, max_y\<close> of \<^verbatim>\<open>calculate_bounding_box\<close>.\<close>

type_synonym acc = "ext \<times> ext \<times> ext \<times> ext"

text \<open>
  The four assignments every branch ends with, for a contribution with the bounds
  \<open>lo_x, lo_y, hi_x, hi_y\<close>:
  \<^verbatim>\<open>min_x = min(min_x, lo_x); min_y = min(min_y, lo_y); max_x = max(max_x, hi_x); max_y = max(max_y, hi_y)\<close>.
\<close>

fun widen :: "acc \<Rightarrow> real \<times> real \<times> real \<times> real \<Rightarrow> acc" where
  "widen (min_x, min_y, max_x, max_y) (lo_x, lo_y, hi_x, hi_y) =
     (min_ext min_x (Fin lo_x), min_ext min_y (Fin lo_y),
      max_ext max_x (Fin hi_x), max_ext max_y (Fin hi_y))"

text \<open>The same for a point: \<^verbatim>\<open>min_x = min(min_x, point.x)\<close> and so on.\<close>

definition extend_point :: "acc \<Rightarrow> vec \<Rightarrow> acc" where
  "extend_point a p = widen a (vx p, vy p, vx p, vy p)"

text \<open>The \<open>LINE\<close> branch: \<^verbatim>\<open>min_x = min(min_x, start.x, end.x)\<close> and so on.\<close>

fun extend_line :: "acc \<Rightarrow> vec \<Rightarrow> vec \<Rightarrow> acc" where
  "extend_line (min_x, min_y, max_x, max_y) s e =
     (min_ext (min_ext min_x (Fin (vx s))) (Fin (vx e)),
      min_ext (min_ext min_y (Fin (vy s))) (Fin (vy e)),
      max_ext (max_ext max_x (Fin (vx s))) (Fin (vx e)),
      max_ext (max_ext max_y (Fin (vy s))) (Fin (vy e)))"

text \<open>\<^verbatim>\<open>math.radians\<close>.\<close>

definition radians :: "real \<Rightarrow> real" where
  "radians d = d * pi / 180"

text \<open>The nested function \<^verbatim>\<open>angle_in_arc(angle, start_deg, end_deg)\<close>.\<close>

definition angle_in_arc :: "real \<Rightarrow> real \<Rightarrow> real \<Rightarrow> bool" where
  "angle_in_arc angle start_deg end_deg =
     (if start_deg \<le> end_deg then start_deg \<le> angle \<and> angle \<le> end_deg
      else angle \<ge> start_deg \<or> angle \<le> end_deg)"

text \<open>
  The local computation of the \<open>ARC\<close> branch, statement by statement; the result is
  \<^verbatim>\<open>(arc_min_x, arc_min_y, arc_max_x, arc_max_y)\<close>.
\<close>

definition arc_bounds :: "vec \<Rightarrow> real \<Rightarrow> real \<Rightarrow> real \<Rightarrow> real \<times> real \<times> real \<times> real" where
  "arc_bounds center radius start_deg end_deg =
     (let start_angle = radians start_deg;
          end_angle = radians end_deg;
          start_x = vx center + radius * cos start_angle;
          start_y = vy center + radius * sin start_angle;
          end_x = vx center + radius * cos end_angle;
          end_y = vy center + radius * sin end_angle;
          arc_min_x = min start_x end_x;
          arc_max_x = max start_x end_x;
          arc_min_y = min start_y end_y;
          arc_max_y = max start_y end_y;
          arc_max_x = (if angle_in_arc 0 start_deg end_deg then vx center + radius else arc_max_x);
          arc_max_y = (if angle_in_arc 90 start_deg end_deg then vy center + radius else arc_max_y);
          arc_min_x = (if angle_in_arc 180 start_deg end_deg then vx center - radius else arc_min_x);
          arc_min_y = (if angle_in_arc 270 start_deg end_deg then vy center - radius else arc_min_y)
      in (arc_min_x, arc_min_y, arc_max_x, arc_max_y))"

text \<open>
  The body of the \<^verbatim>\<open>try\<close> for one entity: the accumulators after it, or the exception
  it raises. \<open>ELLIPSE\<close>, \<open>SPLINE\<close> and every other type match no branch of the
  \<^verbatim>\<open>if/elif\<close> chain and leave the accumulators as they are. In the \<open>POLYLINE\<close> branch
  the test \<^verbatim>\<open>not entity.is_3d_polyline and not entity.is_3d_mesh\<close> is false for a 3D
  polyline without reading \<^verbatim>\<open>is_3d_mesh\<close>; for every other polyline it reads
  \<^verbatim>\<open>is_3d_mesh\<close>, which the entity does not have, and raises \<^verbatim>\<open>AttributeError\<close>. The
  loop over the vertices below the test is never reached.
\<close>

fun entity_bounds :: "entity \<Rightarrow> acc \<Rightarrow> exn + acc" where
  "entity_bounds (LINE s e) a = Inr (extend_line a s e)"
| "entity_bounds (CIRCLE center radius) a =
     Inr (widen a (vx center - radius, vy center - radius, vx center + radius, vy center + radius))"
| "entity_bounds (ARC center radius start_deg end_deg) a =
     Inr (widen a (arc_bounds center radius start_deg end_deg))"
| "entity_bounds (LWPOLYLINE points) a = Inr (foldl extend_point a points)"
| "entity_bounds (POLYLINE is_3d_polyline points) a =
     (if \<not> is_3d_polyline then Inl AttributeError else Inr a)"
| "entity_bounds (POINT p) a = Inr (extend_point a p)"
| "entity_bounds (TEXT p) a = Inr (extend_point a p)"
| "entity_bounds (MALFORMED ex) a = Inl ex"
| "entity_bounds _ a = Inr a"

text \<open>
  The loop \<^verbatim>\<open>for entity in msp\<close> with its \<^verbatim>\<open>try/except Exception\<close>: an exception is
  reported and the loop continues with the accumulators unchanged.
\<close>

fun bounds_loop :: "entity list \<Rightarrow> acc \<Rightarrow> acc" where
  "bounds_loop [] a = a"
| "bounds_loop (e # es) a =
     (case entity_bounds e a of
        Inl ex \<Rightarrow> bounds_loop es a
      | Inr a' \<Rightarrow> bounds_loop es a')"

definition calculate_bounding_box :: "entity list \<Rightarrow> acc" where
  "calculate_bounding_box msp =
     (case bounds_loop msp (PosInf, PosInf, NegInf, NegInf) of
        (min_x, min_y, max_x, max_y) \<Rightarrow>
          if min_x = PosInf then (Fin 0, Fin 0, Fin 0, Fin 0)
          else (min_x, min_y, max_x, max_y))"

text \<open>
  The accumulators before the loop, the entities that leave them as they are (because
  they raise or because no branch assigns), and the finite boxes.
\<close>

definition start_acc :: acc where
  "start_acc = (PosInf, PosInf, NegInf, NegInf)"

definition skipped :: "entity \<Rightarrow> acc \<Rightarrow> bool" where
  "skipped e a = (case entity_bounds e a of Inl ex \<Rightarrow> True | Inr a' \<Rightarrow> a' = a)"

fun as_reals :: "acc \<Rightarrow> (real \<times> real \<times> real \<times> real) option" where
  "as_reals (Fin a, Fin b, Fin c, Fin d) = Some (a, b, c, d)"
| "as_reals _ = None"

fun settled :: "acc \<Rightarrow> bool" where
  "settled (Fin a, Fin b, Fin c, Fin d) = True"
| "settled _ = False"

section \<open>Crop marks\<close>

text \<open>
  \<^verbatim>\<open>ax.plot([xa, xb], [ya, yb], ...)\<close> adds the stroke from \<open>(xa, ya)\<close> to \<open>(xb, yb)\<close>
  to the axes: a line with these x data and y data. \<^verbatim>\<open>add_crop_marks\<close> returns nothing
  and plots eight times; the model returns the strokes in the order they are plotted.
\<close>

datatype line2d = Line2D (xdata: "real \<times> real") (ydata: "real \<times> real")

fun add_crop_marks :: "real \<times> real \<Rightarrow> real \<times> real \<Rightarrow> real \<Rightarrow> line2d list" where
  "add_crop_marks (x0, x1) (y0, y1) mark_len =
     [Line2D (x0, x0 + mark_len) (y0, y0),
      Line2D (x0, x0) (y0, y0 + mark_len),
      Line2D (x1 - mark_len, x1) (y0, y0),
      Line2D (x1, x1) (y0, y0 + mark_len),
      Line2D (x0, x0 + mark_len) (y1, y1),
      Line2D (x0, x0) (y1 - mark_len, y1),
      Line2D (x1 - mark_len, x1) (y1, y1),
      Line2D (x1, x1) (y1 - mark_len, y1)]"

text \<open>The two end points of a stroke, its Euclidean length and its direction.\<close>

definition ends :: "line2d \<Rightarrow> (real \<times> real) set" where
  "ends l = {(fst (xdata l), fst (ydata l)), (snd (xdata l), snd (ydata l))}"

definition seg_length :: "line2d \<Rightarrow> real" where
  "seg_length l = sqrt ((snd (xdata l) - fst (xdata l))\<^sup>2 + (snd (ydata l) - fst (ydata l))\<^sup>2)"

definition horizontal :: "line2d \<Rightarrow> bool" where
  "horizontal l = (fst (ydata l) = snd (ydata l))"

definition vertical :: "line2d \<Rightarrow> bool" where
  "vertical l = (fst (xdata l) = snd (xdata l))"

section \<open>Tiling\<close>

text \<open>
  One saved page: the figure size in inches, the rectangle of the axes in figure
  fractions, the viewport set by \<^verbatim>\<open>set_xlim\<close> and \<^verbatim>\<open>set_ylim\<close>, and the crop marks.
  The entities \<^verbatim>\<open>draw_entities\<close> paints are the same on every page and are not part of
  the model; of matplotlib, only the test of the figure size is modelled.
\<close>

record page =
  page_figsize :: "real \<times> real"
  page_axes :: "real \<times> real \<times> real \<times> real"
  page_xlim :: "real \<times> real"
  page_ylim :: "real \<times> real"
  page_marks :: "line2d list"

text \<open>
  What a run that reaches the end leaves behind: the values of \<^verbatim>\<open>paper_size_mm\<close>,
  \<^verbatim>\<open>content_w\<close>, \<^verbatim>\<open>content_h\<close>, \<^verbatim>\<open>cols\<close> and \<^verbatim>\<open>rows\<close> (the source prints the paper
  size and the grid), and the pages saved to the PDF, in the order they are saved.
\<close>

record tiling =
  tiled_paper :: "real \<times> real"
  tiled_content_w :: real
  tiled_content_h :: real
  tiled_cols :: int
  tiled_rows :: int
  tiled_pages :: "page list"

text \<open>
  \<open>NoDocument\<close> is the early \<^verbatim>\<open>return\<close> after the warning, before the PDF is opened;
  \<open>Document\<close> is a run that reaches the end of \<^verbatim>\<open>dxf_to_pdf_tiled\<close>.
\<close>

datatype outcome = NoDocument | Document tiling

text \<open>The paper after the lines under \<^verbatim>\<open># Auto-orient paper\<close>.\<close>

definition auto_orient :: "real \<Rightarrow> real \<Rightarrow> real \<times> real \<Rightarrow> real \<times> real" where
  "auto_orient width height paper_size_mm =
     (let landscape_fits_better = (width > height \<and> fst paper_size_mm < snd paper_size_mm)
      in if landscape_fits_better then (snd paper_size_mm, fst paper_size_mm)
         else paper_size_mm)"

text \<open>
  The body of the two nested loops for the tile \<open>(row, col)\<close>. \<^verbatim>\<open>plt.figure\<close> raises
  \<^verbatim>\<open>ValueError\<close> for a figure size with a negative component; after it, the divisions
  by the paper's width and height in the arguments of \<^verbatim>\<open>add_axes\<close> raise when one of
  them is zero. \<^verbatim>\<open>add_crop_marks\<close> is called with its default \<^verbatim>\<open>mark_len=5\<close>.
\<close>

fun render_tile ::
  "real \<times> real \<times> real \<times> real \<Rightarrow> real \<times> real \<Rightarrow> real \<Rightarrow> real \<Rightarrow> real \<Rightarrow> bool \<Rightarrow>
   int \<times> int \<Rightarrow> exn + page" where
  "render_tile (min_x, min_y, max_x, max_y) paper_size_mm margin_mm content_w content_h add_marks
       (row, col) =
     (let x0 = min_x + of_int col * content_w;
          x1 = min (x0 + content_w) max_x;
          y0 = min_y + of_int row * content_h;
          y1 = min (y0 + content_h) max_y
      in if fst paper_size_mm / 25.4 < 0 \<or> snd paper_size_mm / 25.4 < 0
         then Inl (ValueError ''figure size must be positive finite'')
         else if fst paper_size_mm = 0 \<or> snd paper_size_mm = 0 then Inl ZeroDivisionError
         else Inr \<lparr>page_figsize = (fst paper_size_mm / 25.4, snd paper_size_mm / 25.4),
                   page_axes = (margin_mm / fst paper_size_mm, margin_mm / snd paper_size_mm,
                                content_w / fst paper_size_mm, content_h / snd paper_size_mm),
                   page_xlim = (x0, x1),
                   page_ylim = (y0, y1),
                   page_marks = (if add_marks then add_crop_marks (x0, x1) (y0, y1) 5 else [])\<rparr>)"

text \<open>
  \<^verbatim>\<open>for row in range(rows): for col in range(cols)\<close>: the tiles in the order the loops
  visit them (none when \<open>rows\<close> or \<open>cols\<close> is not positive), and the loop itself, which
  stops at the first exception.
\<close>

definition tile_indices :: "int \<Rightarrow> int \<Rightarrow> (int \<times> int) list" where
  "tile_indices rows cols =
     concat (map (\<lambda>row. map (\<lambda>col. (row, col)) [0..cols - 1]) [0..rows - 1])"

fun save_pages :: "(int \<times> int \<Rightarrow> exn + page) \<Rightarrow> (int \<times> int) list \<Rightarrow> exn + page list" where
  "save_pages body [] = Inr []"
| "save_pages body (t # ts) =
     (case body t of
        Inl ex \<Rightarrow> Inl ex
      | Inr p \<Rightarrow> (case save_pages body ts of Inl ex \<Rightarrow> Inl ex | Inr ps \<Rightarrow> Inr (p # ps)))"

text \<open>
  \<^verbatim>\<open>dxf_to_pdf_tiled\<close> from the line after the call of \<^verbatim>\<open>calculate_bounding_box\<close> to its
  end, as a function of the box that call returned. \<^verbatim>\<open>math.ceil\<close> of a float is an
  integer.
\<close>

fun tile_drawing ::
  "real \<times> real \<times> real \<times> real \<Rightarrow> real \<times> real \<Rightarrow> real \<Rightarrow> bool \<Rightarrow> exn + outcome" where
  "tile_drawing (min_x, min_y, max_x, max_y) paper_size_mm margin_mm add_marks =
     (let width = max_x - min_x;
          height = max_y - min_y
      in if width = 0 \<and> height = 0 then Inr NoDocument
         else
           (let paper_size_mm = auto_orient width height paper_size_mm;
                content_w = fst paper_size_mm - 2 * margin_mm;
                content_h = snd paper_size_mm - 2 * margin_mm
            in (case py_div width content_w of
                  Inl ex \<Rightarrow> Inl ex
                | Inr qw \<Rightarrow>
                    (case py_div height content_h of
                       Inl ex \<Rightarrow> Inl ex
                     | Inr qh \<Rightarrow>
                         (let cols = \<lceil>qw\<rceil>;
                              rows = \<lceil>qh\<rceil>
                          in (case save_pages
                                     (render_tile (min_x, min_y, max_x, max_y) paper_size_mm
                                        margin_mm content_w content_h add_marks)
                                     (tile_indices rows cols) of
                                Inl ex \<Rightarrow> Inl ex
                              | Inr pages \<Rightarrow>
                                  Inr (Document \<lparr>tiled_paper = paper_size_mm,
                                                 tiled_content_w = content_w,
                                                 tiled_content_h = content_h,
                                                 tiled_cols = cols,
                                                 tiled_rows = rows,
                                                 tiled_pages = pages\<rparr>)))))))"

text \<open>
  The whole function. \<open>readfile\<close> is what \<^verbatim>\<open>ezdxf.readfile(dxf_path)\<close> gives: the
  entities of the modelspace, or the exception it raises. A box with an infinite bound
  would make \<^verbatim>\<open>math.ceil\<close> raise; \<open>calculate_bounding_box\<close> never returns one.
\<close>

definition dxf_to_pdf_tiled ::
  "(exn + entity list) \<Rightarrow> real \<times> real \<Rightarrow> real \<Rightarrow> bool \<Rightarrow> exn + outcome" where
  "dxf_to_pdf_tiled readfile paper_size_mm margin_mm add_marks =
     (case readfile of
        Inl ex \<Rightarrow> Inl ex
      | Inr msp \<Rightarrow>
          (case as_reals (calculate_bounding_box msp) of
             None \<Rightarrow> Inl OverflowError
           | Some box \<Rightarrow> tile_drawing box paper_size_mm margin_mm add_marks))"

text \<open>The rectangle of the drawing a page shows.\<close>

definition viewport :: "page \<Rightarrow> (real \<times> real) set" where
  "viewport p = {fst (page_xlim p) .. snd (page_xlim p)} \<times> {fst (page_ylim p) .. snd (page_ylim p)}"

section \<open>Paper sizes\<close>

text \<open>
  Strings are lists of ASCII characters. \<^verbatim>\<open>str.upper\<close> maps the letters a to z to
  A to Z; \<^verbatim>\<open>str.strip\<close> removes white space at both ends; \<^verbatim>\<open>str.split(',')\<close> cuts at
  every comma and always gives at least one part.
\<close>

definition upper_char :: "char \<Rightarrow> char" where
  "upper_char c =
     (case map_of (zip ''abcdefghijklmnopqrstuvwxyz'' ''ABCDEFGHIJKLMNOPQRSTUVWXYZ'') c of
        None \<Rightarrow> c
      | Some u \<Rightarrow> u)"

definition upper :: "string \<Rightarrow> string" where
  "upper s = map upper_char s"

definition is_space :: "char \<Rightarrow> bool" where
  "is_space c =
     (c \<in> set [CHR 0x09, CHR 0x0A, CHR 0x0B, CHR 0x0C, CHR 0x0D,
                CHR 0x1C, CHR 0x1D, CHR 0x1E, CHR 0x1F, CHR 0x20])"

definition strip :: "string \<Rightarrow> string" where
  "strip s = rev (dropWhile is_space (rev (dropWhile is_space s)))"

fun split :: "char \<Rightarrow> string \<Rightarrow> string list" where
  "split sep [] = [[]]"
| "split sep (c # cs) =
     (if c = sep then [] # split sep cs
      else (case split sep cs of
              [] \<Rightarrow> [[c]]
            | part # parts \<Rightarrow> (c # part) # parts))"

text \<open>The dictionary \<^verbatim>\<open>paper_sizes\<close>, in the order it is written.\<close>

definition paper_sizes :: "(string \<times> (real \<times> real)) list" where
  "paper_sizes =
     [(''A4'', (210, 297)),
      (''A3'', (297, 420)),
      (''A2'', (420, 594)),
      (''A1'', (594, 841)),
      (''A0'', (841, 1189)),
      (''LETTER'', (216, 279)),
      (''LEGAL'', (216, 356)),
      (''TABLOID'', (279, 432))]"

text \<open>The message of the \<^verbatim>\<open>ValueError\<close> that \<^verbatim>\<open>parse_paper_size\<close> raises.\<close>

definition invalid_paper_size :: "string \<Rightarrow> exn" where
  "invalid_paper_size size_str =
     ValueError (''Invalid paper size: '' @ size_str @ ''. Use format '' @ [CHR 0x27] @
                 ''width,height'' @ [CHR 0x27] @ '' or standard size like A4, A3, etc.'')"

text \<open>
  \<^verbatim>\<open>parse_paper_size\<close>. The builtin \<^verbatim>\<open>float\<close> is the parameter \<open>to_float\<close>: the number
  a string denotes, or \<open>None\<close> where \<^verbatim>\<open>float\<close> raises \<^verbatim>\<open>ValueError\<close>. The
  \<^verbatim>\<open>ValueError\<close> of either conversion is caught, and the function raises its own.
\<close>

definition parse_paper_size :: "(string \<Rightarrow> real option) \<Rightarrow> string \<Rightarrow> exn + real \<times> real" where
  "parse_paper_size to_float size_str =
     (let size_str = upper size_str
      in case map_of paper_sizes size_str of
           Some named \<Rightarrow> Inr named
         | None \<Rightarrow>
             (case split CHR '','' size_str of
                [p0, p1] \<Rightarrow>
                  (case to_float (strip p0) of
                     None \<Rightarrow> Inl (invalid_paper_size size_str)
                   | Some width \<Rightarrow>
                       (case to_float (strip p1) of
                          None \<Rightarrow> Inl (invalid_paper_size size_str)
                        | Some height \<Rightarrow> Inr (width, height)))
              | _ \<Rightarrow> Inl (invalid_paper_size size_str)))"

text \<open>
  The value of \<^verbatim>\<open>float\<close> on a plain decimal literal: an optional sign, then digits with
  an optional fractional part. It is \<open>None\<close> on every other string, also on those
  \<^verbatim>\<open>float\<close> accepts in another notation (an exponent, underscores, inf, nan), and
  stands for \<^verbatim>\<open>float\<close> only in the examples, which use plain literals.
\<close>

definition digit_of :: "char \<Rightarrow> nat option" where
  "digit_of c = map_of (zip ''0123456789'' [0, 1, 2, 3, 4, 5, 6, 7, 8, 9]) c"

fun digits_of :: "string \<Rightarrow> nat \<Rightarrow> nat option" where
  "digits_of [] n = Some n"
| "digits_of (c # cs) n =
     (case digit_of c of None \<Rightarrow> None | Some d \<Rightarrow> digits_of cs (10 * n + d))"

definition unsigned_decimal :: "string \<Rightarrow> real option" where
  "unsigned_decimal s =
     (case split CHR ''.'' s of
        [ip] \<Rightarrow> (if ip = [] then None else map_option real (digits_of ip 0))
      | [ip, fp] \<Rightarrow>
          (if ip = [] \<and> fp = [] then None
           else (case (digits_of ip 0, digits_of fp 0) of
                   (Some i, Some f) \<Rightarrow> Some (real i + real f / 10 ^ length fp)
                 | _ \<Rightarrow> None))
      | _ \<Rightarrow> None)"

definition decimal_float :: "string \<Rightarrow> real option" where
  "decimal_float s =
     (case strip s of
        [] \<Rightarrow> None
      | c # cs \<Rightarrow>
          if c = CHR ''-'' then map_option uminus (unsigned_decimal cs)
          else if c = CHR ''+'' then unsigned_decimal cs
          else unsigned_decimal (c # cs))"

section \<open>The command line\<close>

text \<open>
  \<^verbatim>\<open>main\<close> after \<^verbatim>\<open>parse_args\<close>, as a function of the parsed arguments
  \<^verbatim>\<open>args.paper\<close>, \<^verbatim>\<open>args.margin\<close> and \<^verbatim>\<open>args.no_crop_marks\<close> and of what reading the
  input file gives. Each of the three handlers returns 1.
\<close>

definition main :: "(string \<Rightarrow> real option) \<Rightarrow> string \<Rightarrow> real \<Rightarrow> bool \<Rightarrow> (exn + entity list) \<Rightarrow> int" where
  "main to_float paper margin no_crop_marks readfile =
     (case parse_paper_size to_float paper of
        Inl ex \<Rightarrow> 1
      | Inr paper_size \<Rightarrow>
          (let add_marks = \<not> no_crop_marks
           in case dxf_to_pdf_tiled readfile paper_size margin add_marks of
                Inl ex \<Rightarrow> 1
              | Inr out \<Rightarrow> 0))"

section \<open>Properties of the bounding box\<close>

lemma min_max_ext_simps [simp]:
  "min_ext PosInf (Fin x) = Fin x"
  "min_ext (Fin a) (Fin b) = Fin (min a b)"
  "max_ext NegInf (Fin x) = Fin x"
  "max_ext (Fin a) (Fin b) = Fin (max a b)"
  by (auto simp: min_ext_def max_ext_def)

lemma settledE: "settled a \<Longrightarrow> \<exists>p q r s. a = (Fin p, Fin q, Fin r, Fin s)"
  by (cases a rule: settled.cases) auto

text \<open>
  The accumulators are either still the start values or four finite numbers: every
  branch that assigns to one assigns to all four.
\<close>

lemma widen_settled: "a = start_acc \<or> settled a \<Longrightarrow> settled (widen a b)"
  by (cases b) (auto simp: start_acc_def dest!: settledE)

lemma extend_line_settled: "a = start_acc \<or> settled a \<Longrightarrow> settled (extend_line a s e)"
  by (auto simp: start_acc_def dest!: settledE)

lemma foldl_extend_point_settled:
  "a = start_acc \<or> settled a \<Longrightarrow>
   foldl extend_point a ps = start_acc \<or> settled (foldl extend_point a ps)"
proof (induction ps arbitrary: a)
  case Nil
  then show ?case by simp
next
  case (Cons p ps)
  have "settled (extend_point a p)"
    using Cons.prems by (simp add: extend_point_def widen_settled)
  then show ?case using Cons.IH [of "extend_point a p"] by simp
qed

lemma entity_bounds_settled:
  assumes "entity_bounds e a = Inr a'" and "a = start_acc \<or> settled a"
  shows "a' = start_acc \<or> settled a'"
proof (cases e)
  case (LWPOLYLINE points)
  then show ?thesis using assms foldl_extend_point_settled [of a points] by auto
next
  case (POLYLINE is_3d_polyline points)
  then show ?thesis using assms by (auto split: if_splits)
qed (use assms in \<open>auto simp: widen_settled extend_line_settled extend_point_def\<close>)

lemma bounds_loop_settled:
  "a = start_acc \<or> settled a \<Longrightarrow> bounds_loop es a = start_acc \<or> settled (bounds_loop es a)"
proof (induction es arbitrary: a)
  case Nil
  then show ?case by simp
next
  case (Cons e es)
  show ?case
  proof (cases "entity_bounds e a")
    case (Inl ex)
    then show ?thesis using Cons by simp
  next
    case (Inr a')
    then show ?thesis
      using Cons.IH [of a'] entity_bounds_settled [OF Inr Cons.prems] by simp
  qed
qed

lemma calculate_bounding_box_cases:
  "calculate_bounding_box msp =
     (if bounds_loop msp start_acc = start_acc then (Fin 0, Fin 0, Fin 0, Fin 0)
      else bounds_loop msp start_acc)"
  using bounds_loop_settled [of start_acc msp]
  by (auto simp: calculate_bounding_box_def start_acc_def dest!: settledE)

lemma calculate_bounding_box_finite:
  "\<exists>a b c d. calculate_bounding_box msp = (Fin a, Fin b, Fin c, Fin d)"
  using bounds_loop_settled [of start_acc msp]
  by (auto simp: calculate_bounding_box_cases dest!: settledE)

lemma bounds_loop_append: "bounds_loop (xs @ ys) a = bounds_loop ys (bounds_loop xs a)"
  by (induction xs arbitrary: a) (auto split: sum.splits)

lemma bounds_loop_skipped: "list_all (\<lambda>e. skipped e a) es \<Longrightarrow> bounds_loop es a = a"
  by (induction es) (auto simp: skipped_def split: sum.splits)

text \<open>
  Claim C8. The bounding-box computation returns a box of four finite numbers for every
  sequence of entities. An entity whose attribute access raises is skipped: the result
  is the one for the sequence without it, whatever comes before and after. With no
  entity, and more generally when every entity leaves the start values of the
  accumulators as they are, the result is the box \<open>(0, 0, 0, 0)\<close>.
\<close>

theorem bounding_box_total:
  "(\<exists>a b c d. calculate_bounding_box msp = (Fin a, Fin b, Fin c, Fin d))
   \<and> calculate_bounding_box (xs @ MALFORMED ex # ys) = calculate_bounding_box (xs @ ys)
   \<and> calculate_bounding_box [] = (Fin 0, Fin 0, Fin 0, Fin 0)
   \<and> (list_all (\<lambda>e. skipped e (PosInf, PosInf, NegInf, NegInf)) msp \<longrightarrow>
        calculate_bounding_box msp = (Fin 0, Fin 0, Fin 0, Fin 0))"
proof (intro conjI impI)
  show "\<exists>a b c d. calculate_bounding_box msp = (Fin a, Fin b, Fin c, Fin d)"
    by (rule calculate_bounding_box_finite)
  show "calculate_bounding_box (xs @ MALFORMED ex # ys) = calculate_bounding_box (xs @ ys)"
    by (simp add: calculate_bounding_box_def bounds_loop_append)
  show "calculate_bounding_box [] = (Fin 0, Fin 0, Fin 0, Fin 0)"
    by (simp add: calculate_bounding_box_def)
  assume "list_all (\<lambda>e. skipped e (PosInf, PosInf, NegInf, NegInf)) msp"
  then have "bounds_loop msp start_acc = start_acc"
    unfolding start_acc_def by (rule bounds_loop_skipped)
  then show "calculate_bounding_box msp = (Fin 0, Fin 0, Fin 0, Fin 0)"
    by (simp add: calculate_bounding_box_cases)
qed

theorem bounding_box_total_witness:
  "calculate_bounding_box
     [MALFORMED (OtherException ''no radius''), ELLIPSE (Vec 0 0) (Vec 2 0) 0.5 0 1, OTHER ''INSERT'']
     = (Fin 0, Fin 0, Fin 0, Fin 0)
   \<and> calculate_bounding_box
       [POINT (Vec 1 2), MALFORMED (OtherException ''no radius''), POINT (Vec 3 1)]
     = (Fin 1, Fin 1, Fin 3, Fin 2)"
  using bounding_box_total
    [of "[MALFORMED (OtherException ''no radius''), ELLIPSE (Vec 0 0) (Vec 2 0) 0.5 0 1, OTHER ''INSERT'']"
        "[POINT (Vec 1 2)]" "OtherException ''no radius''" "[POINT (Vec 3 1)]"]
  by (simp add: skipped_def calculate_bounding_box_def extend_point_def)

lemma cos_350_degrees: "cos (radians 350) = cos (radians 10)"
proof -
  have "radians 350 = 2 * pi - radians 10" by (simp add: radians_def)
  then show ?thesis by (simp add: cos_diff)
qed

lemma cos_10_degrees_pos: "0 < cos (radians 10)"
proof (rule cos_gt_zero_pi)
  show "- (pi / 2) < radians 10"
    using pi_gt_zero by (simp add: radians_def)
  show "radians 10 < pi / 2"
    using pi_gt_zero by (simp add: radians_def)
qed

text \<open>
  Claim C1. The box of an arc is seeded from its two end points, and each of the four
  bounds is replaced by centre plus or minus radius exactly when its cardinal angle
  (0 for max x, 90 for max y, 180 for min x, 270 for min y) passes \<open>angle_in_arc\<close>,
  the containment test with wrap-around; this box is what the arc adds to the
  accumulators, and it is the bounding box of a drawing of the arc alone. For an arc
  from 350 to 10 degrees, 0 is contained and 180 is not: max x is centre x plus radius,
  min x is the smaller of the two end points' x, and it equals centre x minus radius
  only for radius zero.
\<close>

theorem arc_bounds_cardinal:
  "arc_bounds center radius start_deg end_deg =
     (if angle_in_arc 180 start_deg end_deg then vx center - radius
      else min (vx center + radius * cos (radians start_deg)) (vx center + radius * cos (radians end_deg)),
      if angle_in_arc 270 start_deg end_deg then vy center - radius
      else min (vy center + radius * sin (radians start_deg)) (vy center + radius * sin (radians end_deg)),
      if angle_in_arc 0 start_deg end_deg then vx center + radius
      else max (vx center + radius * cos (radians start_deg)) (vx center + radius * cos (radians end_deg)),
      if angle_in_arc 90 start_deg end_deg then vy center + radius
      else max (vy center + radius * sin (radians start_deg)) (vy center + radius * sin (radians end_deg)))
   \<and> angle_in_arc angle start_deg end_deg =
       (if start_deg \<le> end_deg then start_deg \<le> angle \<and> angle \<le> end_deg
        else start_deg \<le> angle \<or> angle \<le> end_deg)
   \<and> entity_bounds (ARC center radius start_deg end_deg) a =
       Inr (widen a (arc_bounds center radius start_deg end_deg))
   \<and> calculate_bounding_box [ARC center radius start_deg end_deg] =
       (case arc_bounds center radius start_deg end_deg of
          (lo_x, lo_y, hi_x, hi_y) \<Rightarrow> (Fin lo_x, Fin lo_y, Fin hi_x, Fin hi_y))
   \<and> angle_in_arc 0 350 10 \<and> \<not> angle_in_arc 180 350 10
   \<and> (case calculate_bounding_box [ARC center radius 350 10] of
        (min_x, min_y, max_x, max_y) \<Rightarrow>
          max_x = Fin (vx center + radius)
          \<and> min_x = Fin (min (vx center + radius * cos (radians 350))
                            (vx center + radius * cos (radians 10)))
          \<and> (min_x = Fin (vx center - radius)) = (radius = 0))"
proof -
  have seed: "arc_bounds center radius s e =
     (if angle_in_arc 180 s e then vx center - radius
      else min (vx center + radius * cos (radians s)) (vx center + radius * cos (radians e)),
      if angle_in_arc 270 s e then vy center - radius
      else min (vy center + radius * sin (radians s)) (vy center + radius * sin (radians e)),
      if angle_in_arc 0 s e then vx center + radius
      else max (vx center + radius * cos (radians s)) (vx center + radius * cos (radians e)),
      if angle_in_arc 90 s e then vy center + radius
      else max (vy center + radius * sin (radians s)) (vy center + radius * sin (radians e)))"
    for s e
    by (simp add: arc_bounds_def Let_def)
  have alone: "calculate_bounding_box [ARC center radius s e] =
       (case arc_bounds center radius s e of
          (lo_x, lo_y, hi_x, hi_y) \<Rightarrow> (Fin lo_x, Fin lo_y, Fin hi_x, Fin hi_y))"
    for s e
    by (cases "arc_bounds center radius s e") (simp add: calculate_bounding_box_def)
  have test: "angle_in_arc 0 350 10" "\<not> angle_in_arc 180 350 10"
    by (simp_all add: angle_in_arc_def)
  have zero: "(radius * cos (radians 10) = - radius) = (radius = 0)"
  proof
    assume "radius * cos (radians 10) = - radius"
    then have "radius * (cos (radians 10) + 1) = 0" by (simp add: algebra_simps)
    then show "radius = 0" using cos_10_degrees_pos by simp
  qed simp
  have crossing: "arc_bounds center radius 350 10 =
      (vx center + radius * cos (radians 10),
       (if angle_in_arc 270 350 10 then vy center - radius
        else min (vy center + radius * sin (radians 350)) (vy center + radius * sin (radians 10))),
       vx center + radius,
       (if angle_in_arc 90 350 10 then vy center + radius
        else max (vy center + radius * sin (radians 350)) (vy center + radius * sin (radians 10))))"
    unfolding seed using test by (simp add: cos_350_degrees)
  have example: "(case calculate_bounding_box [ARC center radius 350 10] of
        (min_x, min_y, max_x, max_y) \<Rightarrow>
          max_x = Fin (vx center + radius)
          \<and> min_x = Fin (min (vx center + radius * cos (radians 350))
                            (vx center + radius * cos (radians 10)))
          \<and> (min_x = Fin (vx center - radius)) = (radius = 0))"
    unfolding alone crossing using zero by (simp add: cos_350_degrees)
  show ?thesis using seed alone test example by (simp add: angle_in_arc_def)
qed

theorem arc_bounds_cardinal_witness:
  "calculate_bounding_box [ARC (Vec 0 0) 1 0 90] = (Fin 0, Fin 0, Fin 1, Fin 1)"
  using arc_bounds_cardinal [of "Vec 0 0" 1 0 90]
  by (simp add: angle_in_arc_def radians_def)

text \<open>
  Lines, points, text anchors and lightweight polylines: the bounding box of a drawing
  of one such entity is the minimum and maximum of its coordinates. A \<open>POLYLINE\<close>
  entity adds nothing: it is skipped with an \<^verbatim>\<open>AttributeError\<close> or, as a 3D polyline,
  passed over.
\<close>

lemma foldl_extend_point_Fin:
  "foldl extend_point (Fin a, Fin b, Fin c, Fin d) ps =
     (Fin (fold min (map vx ps) a), Fin (fold min (map vy ps) b),
      Fin (fold max (map vx ps) c), Fin (fold max (map vy ps) d))"
  by (induction ps arbitrary: a b c d) (simp_all add: extend_point_def min.commute max.commute)

lemma polyline_alone:
  assumes "points \<noteq> []"
  shows "bounds_loop [LWPOLYLINE points] start_acc =
     (Fin (Min (vx ` set points)), Fin (Min (vy ` set points)),
      Fin (Max (vx ` set points)), Fin (Max (vy ` set points)))"
proof -
  obtain p ps where points: "points = p # ps" using assms by (cases points) auto
  have "foldl extend_point start_acc points =
     (Fin (fold min (map vx ps) (vx p)), Fin (fold min (map vy ps) (vy p)),
      Fin (fold max (map vx ps) (vx p)), Fin (fold max (map vy ps) (vy p)))"
    by (simp add: points start_acc_def extend_point_def foldl_extend_point_Fin)
  moreover have "Min (vx ` set points) = fold min (map vx ps) (vx p)"
    "Min (vy ` set points) = fold min (map vy ps) (vy p)"
    "Max (vx ` set points) = fold max (map vx ps) (vx p)"
    "Max (vy ` set points) = fold max (map vy ps) (vy p)"
    using Min.set_eq_fold [of "vx p" "map vx ps"] Min.set_eq_fold [of "vy p" "map vy ps"]
      Max.set_eq_fold [of "vx p" "map vx ps"] Max.set_eq_fold [of "vy p" "map vy ps"]
    by (simp_all add: points)
  ultimately show ?thesis by simp
qed

lemma explicit_coordinates_bounds:
  "calculate_bounding_box [LINE s e] =
     (Fin (min (vx s) (vx e)), Fin (min (vy s) (vy e)),
      Fin (max (vx s) (vx e)), Fin (max (vy s) (vy e)))"
  "calculate_bounding_box [POINT p] = (Fin (vx p), Fin (vy p), Fin (vx p), Fin (vy p))"
  "calculate_bounding_box [TEXT p] = (Fin (vx p), Fin (vy p), Fin (vx p), Fin (vy p))"
  "points \<noteq> [] \<Longrightarrow> calculate_bounding_box [LWPOLYLINE points] =
     (Fin (Min (vx ` set points)), Fin (Min (vy ` set points)),
      Fin (Max (vx ` set points)), Fin (Max (vy ` set points)))"
  using polyline_alone [of points]
  by (simp_all add: calculate_bounding_box_def extend_point_def start_acc_def)

lemma polyline_not_in_bounds:
  "entity_bounds (POLYLINE False points) a = Inl AttributeError"
  "entity_bounds (POLYLINE True points) a = Inr a"
  "calculate_bounding_box [POLYLINE is_3d_polyline [Vec 1 2, Vec 10 5]] = (Fin 0, Fin 0, Fin 0, Fin 0)"
  by (simp_all add: calculate_bounding_box_def)

text \<open>
  Claim C6. The claim gives a spline the minimum and maximum of its control points as its
  contribution. The loop of \<open>calculate_bounding_box\<close> has no branch for \<open>SPLINE\<close>: a
  spline leaves the accumulators as they are, a drawing of one spline with the control
  points \<open>(1, 2)\<close> and \<open>(10, 5)\<close> gets the box \<open>(0, 0, 0, 0)\<close> of the empty drawing, and a
  spline beside a line does not widen the box of the line.
\<close>

theorem spline_not_in_bounds:
  "entity_bounds (SPLINE control_points) a = Inr a
   \<and> calculate_bounding_box [SPLINE [Vec 1 2, Vec 10 5]] = (Fin 0, Fin 0, Fin 0, Fin 0)
   \<and> calculate_bounding_box [LINE (Vec 0 0) (Vec 1 1), SPLINE [Vec 5 5, Vec 9 9]]
       = (Fin 0, Fin 0, Fin 1, Fin 1)"
  by (simp add: calculate_bounding_box_def)

section \<open>Properties of the tiling\<close>

text \<open>
  The page loop either raises at its first tile or saves one page per tile; with this,
  \<open>tile_drawing\<close> is a chain of five tests.
\<close>

lemma save_pages_map:
  "(\<And>t. t \<in> set ts \<Longrightarrow> body t = Inr (f t)) \<Longrightarrow> save_pages body ts = Inr (map f ts)"
  by (induction ts) auto

lemma save_pages_raise:
  "ts \<noteq> [] \<Longrightarrow> body (hd ts) = Inl ex \<Longrightarrow> save_pages body ts = Inl ex"
  by (cases ts) auto

lemma render_tile_negative:
  "fst P < 0 \<or> snd P < 0 \<Longrightarrow>
   render_tile box P m cw ch marks t = Inl (ValueError ''figure size must be positive finite'')"
  by (cases box; cases t) (simp add: Let_def)

lemma render_tile_zero:
  "0 \<le> fst P \<Longrightarrow> 0 \<le> snd P \<Longrightarrow> fst P = 0 \<or> snd P = 0 \<Longrightarrow>
   render_tile box P m cw ch marks t = Inl ZeroDivisionError"
  by (cases box; cases t) (auto simp: Let_def)

lemma render_tile_page:
  "0 < fst P \<Longrightarrow> 0 < snd P \<Longrightarrow>
   render_tile box P m cw ch marks t = Inr (projr (render_tile box P m cw ch marks t))"
  by (cases box; cases t) (simp add: Let_def)

lemma render_tile_limits:
  assumes "0 < fst P" "0 < snd P"
  shows "page_xlim (projr (render_tile (min_x, min_y, max_x, max_y) P m cw ch marks (row, col))) =
           (min_x + of_int col * cw, min (min_x + of_int col * cw + cw) max_x)"
    and "page_ylim (projr (render_tile (min_x, min_y, max_x, max_y) P m cw ch marks (row, col))) =
           (min_y + of_int row * ch, min (min_y + of_int row * ch + ch) max_y)"
  using assms by (simp_all add: Let_def)

lemma tile_drawing_eq:
  "tile_drawing (min_x, min_y, max_x, max_y) paper m marks =
    (let W = max_x - min_x; H = max_y - min_y; P = auto_orient W H paper;
         cw = fst P - 2 * m; ch = snd P - 2 * m;
         tiles = tile_indices \<lceil>H / ch\<rceil> \<lceil>W / cw\<rceil>
     in if W = 0 \<and> H = 0 then Inr NoDocument
        else if cw = 0 \<or> ch = 0 then Inl ZeroDivisionError
        else if tiles \<noteq> [] \<and> (fst P < 0 \<or> snd P < 0)
          then Inl (ValueError ''figure size must be positive finite'')
        else if tiles \<noteq> [] \<and> (fst P = 0 \<or> snd P = 0) then Inl ZeroDivisionError
        else Inr (Document \<lparr>tiled_paper = P, tiled_content_w = cw, tiled_content_h = ch,
                             tiled_cols = \<lceil>W / cw\<rceil>, tiled_rows = \<lceil>H / ch\<rceil>,
                             tiled_pages = map (\<lambda>t. projr (render_tile (min_x, min_y, max_x, max_y) P m cw ch marks t)) tiles\<rparr>))"
proof -
  define W where "W = max_x - min_x"
  define H where "H = max_y - min_y"
  define P where "P = auto_orient W H paper"
  define cw where "cw = fst P - 2 * m"
  define ch where "ch = snd P - 2 * m"
  define tiles where "tiles = tile_indices \<lceil>H / ch\<rceil> \<lceil>W / cw\<rceil>"
  define body where "body = render_tile (min_x, min_y, max_x, max_y) P m cw ch marks"
  have pages: "save_pages body tiles =
      (if tiles \<noteq> [] \<and> (fst P < 0 \<or> snd P < 0)
         then Inl (ValueError ''figure size must be positive finite'')
       else if tiles \<noteq> [] \<and> (fst P = 0 \<or> snd P = 0) then Inl ZeroDivisionError
       else Inr (map (\<lambda>t. projr (body t)) tiles))"
  proof -
    consider (negative) "fst P < 0 \<or> snd P < 0"
      | (zero) "0 \<le> fst P" "0 \<le> snd P" "fst P = 0 \<or> snd P = 0"
      | (positive) "0 < fst P" "0 < snd P"
      by linarith
    then show ?thesis
    proof cases
      case negative
      then have "body t = Inl (ValueError ''figure size must be positive finite'')" for t
        unfolding body_def by (rule render_tile_negative)
      then show ?thesis using negative by (cases tiles) auto
    next
      case zero
      then have "body t = Inl ZeroDivisionError" for t
        unfolding body_def by (intro render_tile_zero)
      then show ?thesis using zero by (cases tiles) auto
    next
      case positive
      then have "body t = Inr (projr (body t))" for t
        unfolding body_def by (intro render_tile_page)
      then have "save_pages body tiles = Inr (map (\<lambda>t. projr (body t)) tiles)"
        by (intro save_pages_map)
      then show ?thesis using positive by simp
    qed
  qed
  have "tile_drawing (min_x, min_y, max_x, max_y) paper m marks =
    (if W = 0 \<and> H = 0 then Inr NoDocument
        else if cw = 0 \<or> ch = 0 then Inl ZeroDivisionError
        else if tiles \<noteq> [] \<and> (fst P < 0 \<or> snd P < 0)
          then Inl (ValueError ''figure size must be positive finite'')
        else if tiles \<noteq> [] \<and> (fst P = 0 \<or> snd P = 0) then Inl ZeroDivisionError
        else Inr (Document \<lparr>tiled_paper = P, tiled_content_w = cw, tiled_content_h = ch,
                             tiled_cols = \<lceil>W / cw\<rceil>, tiled_rows = \<lceil>H / ch\<rceil>,
                             tiled_pages = map (\<lambda>t. projr (body t)) tiles\<rparr>))"
    unfolding tile_drawing.simps Let_def py_div_def W_def [symmetric] H_def [symmetric]
      P_def [symmetric] cw_def [symmetric] ch_def [symmetric] body_def [symmetric]
    using pages by (simp add: tiles_def)
  then show ?thesis
    unfolding Let_def W_def H_def P_def cw_def ch_def body_def tiles_def .
qed

lemma tile_drawing_document:
  assumes "tile_drawing (min_x, min_y, max_x, max_y) paper m marks = Inr (Document t)"
  shows "tiled_paper t = auto_orient (max_x - min_x) (max_y - min_y) paper"
    and "tiled_content_w t = fst (tiled_paper t) - 2 * m"
    and "tiled_content_h t = snd (tiled_paper t) - 2 * m"
    and "tiled_cols t = \<lceil>(max_x - min_x) / tiled_content_w t\<rceil>"
    and "tiled_rows t = \<lceil>(max_y - min_y) / tiled_content_h t\<rceil>"
    and "tiled_pages t =
           map (\<lambda>tile. projr (render_tile (min_x, min_y, max_x, max_y) (tiled_paper t) m
                                  (tiled_content_w t) (tiled_content_h t) marks tile))
               (tile_indices (tiled_rows t) (tiled_cols t))"
    and "tiled_content_w t \<noteq> 0" and "tiled_content_h t \<noteq> 0"
    and "max_x - min_x \<noteq> 0 \<or> max_y - min_y \<noteq> 0"
  using assms unfolding tile_drawing_eq Let_def by (auto split: if_splits)

lemma auto_orient_positive:
  "0 < fst paper \<Longrightarrow> 0 < snd paper \<Longrightarrow>
   0 < fst (auto_orient w h paper) \<and> 0 < snd (auto_orient w h paper)"
  by (simp add: auto_orient_def)

lemma tile_drawing_succeeds:
  assumes "max_x - min_x \<noteq> 0 \<or> max_y - min_y \<noteq> 0"
    and "fst (auto_orient (max_x - min_x) (max_y - min_y) paper) - 2 * m \<noteq> 0"
    and "snd (auto_orient (max_x - min_x) (max_y - min_y) paper) - 2 * m \<noteq> 0"
    and "0 < fst paper" and "0 < snd paper"
  shows "\<exists>t. tile_drawing (min_x, min_y, max_x, max_y) paper m marks = Inr (Document t)"
proof -
  have "0 < fst (auto_orient (max_x - min_x) (max_y - min_y) paper)"
       "0 < snd (auto_orient (max_x - min_x) (max_y - min_y) paper)"
    using assms(4,5) auto_orient_positive [of paper] by simp_all
  then show ?thesis
    using assms(1-3) unfolding tile_drawing_eq Let_def by auto
qed

lemma length_tile_indices: "length (tile_indices rows cols) = nat rows * nat cols"
  by (simp add: tile_indices_def length_concat comp_def sum_list_triv)

lemma set_tile_indices: "set (tile_indices rows cols) = {0..rows - 1} \<times> {0..cols - 1}"
  by (auto simp: tile_indices_def)

lemma tile_indices_empty: "cols \<le> 0 \<or> rows \<le> 0 \<Longrightarrow> tile_indices rows cols = []"
  by (auto simp: tile_indices_def)

lemma cover_interval:
  fixes lo hi cw :: real
  assumes "0 < cw" "lo < hi"
  shows "(\<Union>c \<in> {0..\<lceil>(hi - lo) / cw\<rceil> - 1}. {lo + of_int c * cw .. min (lo + of_int c * cw + cw) hi})
           = {lo..hi}" (is "?L = ?R")
proof (intro set_eqI iffI)
  fix x assume "x \<in> ?L"
  then obtain c :: int where c: "0 \<le> c" and x: "lo + of_int c * cw \<le> x" "x \<le> hi"
    by auto
  have "0 \<le> of_int c * cw" using c assms(1) by simp
  then show "x \<in> ?R" using x by simp
next
  fix x assume "x \<in> ?R"
  then have x: "lo \<le> x" "x \<le> hi" by simp_all
  define n where "n = \<lceil>(hi - lo) / cw\<rceil>"
  have n_ge: "(hi - lo) / cw \<le> of_int n" unfolding n_def by (rule le_of_int_ceiling)
  have n_lt: "of_int n - 1 < (hi - lo) / cw" unfolding n_def by linarith
  have n_pos: "1 \<le> n" unfolding n_def using assms by (simp add: )
  show "x \<in> ?L"
  proof (cases "x = hi")
    case True
    have a: "lo + of_int (n - 1) * cw \<le> hi"
      using n_lt assms(1) by (simp add: field_simps)
    have b: "hi \<le> lo + of_int (n - 1) * cw + cw"
      using n_ge assms(1) by (simp add: field_simps)
    show ?thesis
      unfolding n_def [symmetric] using True a b n_pos
      by (intro UN_I [of "n - 1"]) auto
  next
    case False
    define c where "c = \<lfloor>(x - lo) / cw\<rfloor>"
    have c_le: "of_int c \<le> (x - lo) / cw" unfolding c_def by (rule of_int_floor_le)
    have c_gt: "(x - lo) / cw < of_int c + 1" unfolding c_def by linarith
    have "0 \<le> (x - lo) / cw" using x assms(1) by simp
    then have c0: "0 \<le> c" unfolding c_def by simp
    have "(x - lo) / cw < (hi - lo) / cw"
      using False x assms(1) by (simp add: divide_strict_right_mono)
    then have "of_int c < (of_int n :: real)" using c_le n_ge by linarith
    then have cn: "c \<le> n - 1" by simp
    have a: "lo + of_int c * cw \<le> x" using c_le assms(1) by (simp add: field_simps)
    have b: "x \<le> lo + of_int c * cw + cw" using c_gt assms(1) by (simp add: field_simps)
    show ?thesis
      unfolding n_def [symmetric] using a b x c0 cn
      by (intro UN_I [of c]) auto
  qed
qed

lemma ceiling_ge_one_iff:
  fixes w cw :: real
  assumes "0 < cw"
  shows "(1 \<le> \<lceil>w / cw\<rceil>) = (0 < w)"
proof -
  have "(1 \<le> \<lceil>w / cw\<rceil>) = (0 < w / cw)" by linarith
  then show ?thesis using assms by (simp add: zero_less_divide_iff)
qed

text \<open>
  The grid of a document: the number of columns is the ceiling of the drawing's width
  over the content width, the number of rows the ceiling of the drawing's height over the
  content height. With a positive content width there is at least one column exactly
  when the drawing's width is positive, and likewise for the rows. A width of 1000 over
  a content width of 190 gives 6 columns.
\<close>

lemma grid_formula:
  assumes "tile_drawing (min_x, min_y, max_x, max_y) paper m marks = Inr (Document t)"
  shows "tiled_cols t = \<lceil>(max_x - min_x) / tiled_content_w t\<rceil>"
    and "tiled_rows t = \<lceil>(max_y - min_y) / tiled_content_h t\<rceil>"
    and "0 < tiled_content_w t \<Longrightarrow> (1 \<le> tiled_cols t) = (0 < max_x - min_x)"
    and "0 < tiled_content_h t \<Longrightarrow> (1 \<le> tiled_rows t) = (0 < max_y - min_y)"
    and "max_x - min_x = 1000 \<Longrightarrow> tiled_content_w t = 190 \<Longrightarrow> tiled_cols t = 6"
proof -
  show cols: "tiled_cols t = \<lceil>(max_x - min_x) / tiled_content_w t\<rceil>"
    using assms by (rule tile_drawing_document)
  show rows: "tiled_rows t = \<lceil>(max_y - min_y) / tiled_content_h t\<rceil>"
    using assms by (rule tile_drawing_document)
  show "(1 \<le> tiled_cols t) = (0 < max_x - min_x)" if "0 < tiled_content_w t"
    unfolding cols using that by (rule ceiling_ge_one_iff)
  show "(1 \<le> tiled_rows t) = (0 < max_y - min_y)" if "0 < tiled_content_h t"
    unfolding rows using that by (rule ceiling_ge_one_iff)
  show "tiled_cols t = 6" if "max_x - min_x = 1000" "tiled_content_w t = 190"
  proof -
    have "\<lceil>(1000 :: real) / 190\<rceil> = 6" by linarith
    then show ?thesis unfolding cols using that by simp
  qed
qed

text \<open>
  Claim C2. The claim asks for at least one column and one row whenever the content
  dimensions are positive. The planner takes the two ceilings and nothing keeps them
  above zero. For the drawing of one vertical line from \<open>(0, 0)\<close> to \<open>(0, 5)\<close>, on A4
  with a margin of 10, the box has the width 0 and the height 5, both content dimensions
  are positive, the grid has 0 columns and 1 row, no page is saved, and the run ends with
  the exit status 0.
\<close>

theorem vertical_line_no_page:
  "calculate_bounding_box [LINE (Vec 0 0) (Vec 0 5)] = (Fin 0, Fin 0, Fin 0, Fin 5)
   \<and> dxf_to_pdf_tiled (Inr [LINE (Vec 0 0) (Vec 0 5)]) (210, 297) 10 True =
       Inr (Document \<lparr>tiled_paper = (210, 297), tiled_content_w = 190, tiled_content_h = 277,
                       tiled_cols = 0, tiled_rows = 1, tiled_pages = []\<rparr>)
   \<and> main decimal_float ''A4'' 10 False (Inr [LINE (Vec 0 0) (Vec 0 5)]) = 0"
proof -
  have box: "calculate_bounding_box [LINE (Vec 0 0) (Vec 0 5)] = (Fin 0, Fin 0, Fin 0, Fin 5)"
    by (simp add: calculate_bounding_box_def)
  have tiles: "tile_drawing (0, 0, 0, 5) (210, 297) 10 marks =
       Inr (Document \<lparr>tiled_paper = (210, 297), tiled_content_w = 190, tiled_content_h = 277,
                       tiled_cols = 0, tiled_rows = 1, tiled_pages = []\<rparr>)" for marks
    by (simp add: auto_orient_def py_div_def Let_def tile_indices_def)
  have paper: "parse_paper_size decimal_float ''A4'' = Inr (210, 297)"
    by (simp add: parse_paper_size_def upper_def upper_char_def paper_sizes_def)
  show ?thesis
    using tiles by (simp add: box paper main_def dxf_to_pdf_tiled_def del: tile_drawing.simps)
qed

lemma tile_drawing_NoDocument:
  "(tile_drawing (min_x, min_y, max_x, max_y) paper m marks = Inr NoDocument) =
     (max_x - min_x = 0 \<and> max_y - min_y = 0)"
  unfolding tile_drawing_eq Let_def by auto

text \<open>
  Claim C3, amended. The planner takes its early return, with no error and before the
  document is opened, exactly when the bounding box has zero width and zero height.
  The run then ends normally: for a paper argument that parses and a file that reads,
  \<open>main\<close> returns the exit status 0.
\<close>

theorem degenerate_box_returns:
  "(tile_drawing (min_x, min_y, max_x, max_y) paper m marks = Inr NoDocument) =
     (max_x - min_x = 0 \<and> max_y - min_y = 0)
   \<and> (parse_paper_size to_float paper_arg = Inr paper
       \<and> calculate_bounding_box msp = (Fin min_x, Fin min_y, Fin max_x, Fin max_y)
       \<and> max_x - min_x = 0 \<and> max_y - min_y = 0 \<longrightarrow>
       dxf_to_pdf_tiled (Inr msp) paper m marks = Inr NoDocument
       \<and> main to_float paper_arg m no_crop_marks (Inr msp) = 0)"
proof (intro conjI impI)
  show "(tile_drawing (min_x, min_y, max_x, max_y) paper m marks = Inr NoDocument) =
     (max_x - min_x = 0 \<and> max_y - min_y = 0)"
    by (rule tile_drawing_NoDocument)
next
  assume a: "parse_paper_size to_float paper_arg = Inr paper
       \<and> calculate_bounding_box msp = (Fin min_x, Fin min_y, Fin max_x, Fin max_y)
       \<and> max_x - min_x = 0 \<and> max_y - min_y = 0"
  then have "tile_drawing (min_x, min_y, max_x, max_y) paper m add_marks = Inr NoDocument"
    for add_marks
    by (simp only: tile_drawing_NoDocument)
  then have run: "dxf_to_pdf_tiled (Inr msp) paper m add_marks = Inr NoDocument" for add_marks
    using a by (simp add: dxf_to_pdf_tiled_def)
  show "dxf_to_pdf_tiled (Inr msp) paper m marks = Inr NoDocument" by (rule run)
  show "main to_float paper_arg m no_crop_marks (Inr msp) = 0"
    using a run by (simp add: main_def)
qed

theorem degenerate_box_returns_witness:
  "dxf_to_pdf_tiled (Inr [POINT (Vec 3 4), TEXT (Vec 3 4)]) (210, 297) 10 True = Inr NoDocument
   \<and> main decimal_float ''a4'' 10 False (Inr [POINT (Vec 3 4), TEXT (Vec 3 4)]) = 0"
proof -
  have "parse_paper_size decimal_float ''a4'' = Inr (210, 297)"
    by (simp add: parse_paper_size_def upper_def upper_char_def paper_sizes_def)
  moreover have "calculate_bounding_box [POINT (Vec 3 4), TEXT (Vec 3 4)] = (Fin 3, Fin 4, Fin 3, Fin 4)"
    by (simp add: calculate_bounding_box_def extend_point_def)
  ultimately show ?thesis
    using degenerate_box_returns
      [of 3 4 3 4 "(210, 297)" 10 True decimal_float "''a4''" "[POINT (Vec 3 4), TEXT (Vec 3 4)]" False]
    by simp
qed

text \<open>
  The claim as stated asks for an error and a fatal report. For the empty drawing the
  planner returns without an error and the exit status is 0.
\<close>

theorem degenerate_box_counterexample:
  "tile_drawing (0, 0, 0, 0) (210, 297) 10 True = Inr NoDocument
   \<and> dxf_to_pdf_tiled (Inr []) (210, 297) 10 True = Inr NoDocument
   \<and> main decimal_float ''A4'' 10 False (Inr []) = 0"
  by (simp add: main_def parse_paper_size_def upper_def upper_char_def paper_sizes_def
      dxf_to_pdf_tiled_def calculate_bounding_box_def)




lemma map_tile_indices:
  "map h (tile_indices rows cols) =
     concat (map (\<lambda>row. map (\<lambda>col. h (row, col)) [0..cols - 1]) [0..rows - 1])"
  by (simp add: tile_indices_def map_concat comp_def)

lemma Union_grid:
  "(\<Union>tile \<in> R \<times> C. X (snd tile) \<times> Y (fst tile)) = (\<Union>c \<in> C. X c) \<times> (\<Union>r \<in> R. Y r)"
  by auto

text \<open>
  Claim C5, amended. Take a bounding box with positive width and height, a paper size
  with positive width and height, and a margin that leaves positive content dimensions
  on the oriented paper. Then the planner produces a document; its pages, in the order
  they are saved, show the viewports of the tiles row by row from the minimum corner of
  the box, with \<open>x0 = min_x + col * content_w\<close>, \<open>x1 = min (x0 + content_w) max_x\<close> and
  the same for \<open>y\<close>; the number of pages is columns times rows; and, in the exact
  arithmetic of this model, the union of the viewports is the rectangle of the box.
\<close>

theorem viewports_cover:
  assumes "min_x < max_x" and "min_y < max_y"
    and "0 < fst paper" and "0 < snd paper"
    and "0 < fst (auto_orient (max_x - min_x) (max_y - min_y) paper) - 2 * m"
    and "0 < snd (auto_orient (max_x - min_x) (max_y - min_y) paper) - 2 * m"
  shows "\<exists>t. tile_drawing (min_x, min_y, max_x, max_y) paper m marks = Inr (Document t)
     \<and> map (\<lambda>p. (page_xlim p, page_ylim p)) (tiled_pages t) =
         concat (map (\<lambda>row. map (\<lambda>col.
             ((min_x + of_int col * tiled_content_w t,
               min (min_x + of_int col * tiled_content_w t + tiled_content_w t) max_x),
              (min_y + of_int row * tiled_content_h t,
               min (min_y + of_int row * tiled_content_h t + tiled_content_h t) max_y)))
           [0..tiled_cols t - 1]) [0..tiled_rows t - 1])
     \<and> (\<Union>p \<in> set (tiled_pages t). viewport p) = {min_x..max_x} \<times> {min_y..max_y}
     \<and> int (length (tiled_pages t)) = tiled_cols t * tiled_rows t"
proof -
  obtain t where t: "tile_drawing (min_x, min_y, max_x, max_y) paper m marks = Inr (Document t)"
    using tile_drawing_succeeds [of max_x min_x max_y min_y paper m marks] assms by auto
  define P where "P = tiled_paper t"
  define cw where "cw = tiled_content_w t"
  define ch where "ch = tiled_content_h t"
  define body where "body = (\<lambda>tile. projr (render_tile (min_x, min_y, max_x, max_y) P m cw ch marks tile))"
  define lim where "lim = (\<lambda>tile :: int \<times> int.
      ((min_x + of_int (snd tile) * cw, min (min_x + of_int (snd tile) * cw + cw) max_x),
       (min_y + of_int (fst tile) * ch, min (min_y + of_int (fst tile) * ch + ch) max_y)))"
  have P: "P = auto_orient (max_x - min_x) (max_y - min_y) paper"
    unfolding P_def using t by (rule tile_drawing_document)
  have cw: "0 < cw" and ch: "0 < ch"
    using assms(5,6) tile_drawing_document(2,3) [OF t] unfolding cw_def ch_def P [symmetric] P_def
    by simp_all
  have cols: "tiled_cols t = \<lceil>(max_x - min_x) / cw\<rceil>"
    unfolding cw_def using t by (rule tile_drawing_document)
  have rows: "tiled_rows t = \<lceil>(max_y - min_y) / ch\<rceil>"
    unfolding ch_def using t by (rule tile_drawing_document)
  have pages: "tiled_pages t = map body (tile_indices (tiled_rows t) (tiled_cols t))"
    unfolding body_def P_def cw_def ch_def using t by (rule tile_drawing_document)
  have nz: "0 < fst P" "0 < snd P"
    using assms(3,4) auto_orient_positive [of paper] unfolding P by simp_all
  have limits: "(page_xlim (body tile), page_ylim (body tile)) = lim tile" for tile
    unfolding body_def lim_def using render_tile_limits [OF nz] by (cases tile) simp
  have order: "map (\<lambda>p. (page_xlim p, page_ylim p)) (tiled_pages t) =
      concat (map (\<lambda>row. map (\<lambda>col. lim (row, col)) [0..tiled_cols t - 1]) [0..tiled_rows t - 1])"
    unfolding pages map_tile_indices [symmetric] by (simp add: comp_def limits)
  have cover: "(\<Union>p \<in> set (tiled_pages t). viewport p) = {min_x..max_x} \<times> {min_y..max_y}"
  proof -
    have "viewport (body tile) =
        {min_x + of_int (snd tile) * cw .. min (min_x + of_int (snd tile) * cw + cw) max_x}
        \<times> {min_y + of_int (fst tile) * ch .. min (min_y + of_int (fst tile) * ch + ch) max_y}"
      for tile
      using limits [of tile] unfolding viewport_def lim_def by simp
    then have "(\<Union>p \<in> set (tiled_pages t). viewport p) =
        (\<Union>tile \<in> {0..tiled_rows t - 1} \<times> {0..tiled_cols t - 1}.
          {min_x + of_int (snd tile) * cw .. min (min_x + of_int (snd tile) * cw + cw) max_x}
          \<times> {min_y + of_int (fst tile) * ch .. min (min_y + of_int (fst tile) * ch + ch) max_y})"
      unfolding pages by (simp add: set_tile_indices)
    also have "\<dots> =
        (\<Union>c \<in> {0..tiled_cols t - 1}. {min_x + of_int c * cw .. min (min_x + of_int c * cw + cw) max_x})
        \<times> (\<Union>r \<in> {0..tiled_rows t - 1}. {min_y + of_int r * ch .. min (min_y + of_int r * ch + ch) max_y})"
      by (rule Union_grid)
    also have "\<dots> = {min_x..max_x} \<times> {min_y..max_y}"
      unfolding cols rows cover_interval [OF cw assms(1)] cover_interval [OF ch assms(2)] ..
    finally show ?thesis .
  qed
  have count: "int (length (tiled_pages t)) = tiled_cols t * tiled_rows t"
  proof -
    have "0 \<le> (max_x - min_x) / cw" "0 \<le> (max_y - min_y) / ch"
      using assms(1,2) cw ch by simp_all
    then have "0 \<le> tiled_cols t" "0 \<le> tiled_rows t"
      unfolding cols rows by (simp_all add: ceiling_mono [of 0, simplified])
    then show ?thesis
      unfolding pages by (simp add: length_tile_indices mult.commute)
  qed
  show ?thesis
    using t order cover count unfolding lim_def cw_def ch_def by (intro exI [of _ t]) simp
qed

theorem viewports_cover_witness:
  "\<exists>t. tile_drawing (0, 0, 800, 200) (210, 297) 10 True = Inr (Document t)
        \<and> (\<Union>p \<in> set (tiled_pages t). viewport p) = {0..800} \<times> {0..200}
        \<and> length (tiled_pages t) = 6"
proof -
  obtain t where t: "tile_drawing (0, 0, 800, 200) (210, 297) 10 True = Inr (Document t)"
    and cover: "(\<Union>p \<in> set (tiled_pages t). viewport p) = {0..800} \<times> {0..200}"
    and count: "int (length (tiled_pages t)) = tiled_cols t * tiled_rows t"
    using viewports_cover [of 0 800 0 200 "(210, 297)" 10 True]
    by (auto simp: auto_orient_def)
  have "tiled_content_w t = 277" "tiled_content_h t = 190"
    using tile_drawing_document(1-3) [OF t] by (simp_all add: auto_orient_def)
  moreover have "\<lceil>(800 :: real) / 277\<rceil> = 3" "\<lceil>(200 :: real) / 190\<rceil> = 2" by linarith+
  ultimately have "tiled_cols t = 3" "tiled_rows t = 2"
    using tile_drawing_document(4,5) [OF t] by simp_all
  then have "length (tiled_pages t) = 6" using count by simp
  then show ?thesis using t cover by blast
qed

text \<open>
  The claim as stated asks only for a box of positive width and height and positive
  content dimensions. A paper of width 0 and height 100 with a margin of \<open>- 5\<close> has the
  content dimensions 10 and 110; for the box from \<open>(0, 0)\<close> to \<open>(100, 100)\<close> the first
  tile raises \<open>ZeroDivisionError\<close> and no viewport is set.
\<close>

theorem viewports_cover_counterexample:
  "tile_drawing (0, 0, 100, 100) (0, 100) (- 5) True = Inl ZeroDivisionError"
proof -
  have "\<lceil>(100 :: real) / 110\<rceil> = 1" by linarith
  moreover have "tile_indices 1 10 \<noteq> []"
    using length_tile_indices [of 1 10] by auto
  ultimately show ?thesis
    unfolding tile_drawing_eq Let_def by (simp add: auto_orient_def)
qed

text \<open>
  Claim C9. The paper is swapped exactly when the drawing is wider than tall and the
  configured paper is taller than wide, and the content area is computed from the paper
  after this step. For a drawing 800 wide and 200 high on A4 (210 by 297) with the
  default margin of 10 the paper becomes 297 by 210, the content area 277 by 190 and
  the grid 3 by 2.
\<close>

theorem landscape_for_wide_drawings:
  "auto_orient width height paper =
     (if width > height \<and> fst paper < snd paper then (snd paper, fst paper) else paper)
   \<and> (tile_drawing (min_x, min_y, max_x, max_y) paper m marks = Inr (Document t) \<longrightarrow>
        tiled_paper t =
          (if max_x - min_x > max_y - min_y \<and> fst paper < snd paper then (snd paper, fst paper)
           else paper)
        \<and> tiled_content_w t = fst (tiled_paper t) - 2 * m
        \<and> tiled_content_h t = snd (tiled_paper t) - 2 * m)
   \<and> (\<exists>pages. tile_drawing (min_x, min_y, min_x + 800, min_y + 200) (210, 297) 10 marks =
         Inr (Document \<lparr>tiled_paper = (297, 210), tiled_content_w = 277, tiled_content_h = 190,
                         tiled_cols = 3, tiled_rows = 2, tiled_pages = pages\<rparr>))"
proof (intro conjI impI)
  show "auto_orient width height paper =
     (if width > height \<and> fst paper < snd paper then (snd paper, fst paper) else paper)"
    by (simp add: auto_orient_def)
next
  assume doc: "tile_drawing (min_x, min_y, max_x, max_y) paper m marks = Inr (Document t)"
  show "tiled_paper t =
          (if max_x - min_x > max_y - min_y \<and> fst paper < snd paper then (snd paper, fst paper)
           else paper)"
    using tile_drawing_document(1) [OF doc] by (simp add: auto_orient_def)
  show "tiled_content_w t = fst (tiled_paper t) - 2 * m"
    using doc by (rule tile_drawing_document)
  show "tiled_content_h t = snd (tiled_paper t) - 2 * m"
    using doc by (rule tile_drawing_document)
next
  have "\<lceil>(800 :: real) / 277\<rceil> = 3" "\<lceil>(200 :: real) / 190\<rceil> = 2" by linarith+
  then show "\<exists>pages. tile_drawing (min_x, min_y, min_x + 800, min_y + 200) (210, 297) 10 marks =
         Inr (Document \<lparr>tiled_paper = (297, 210), tiled_content_w = 277, tiled_content_h = 190,
                         tiled_cols = 3, tiled_rows = 2, tiled_pages = pages\<rparr>)"
    unfolding tile_drawing_eq Let_def by (simp add: auto_orient_def)
qed

theorem landscape_for_wide_drawings_witness:
  "\<exists>pages. tile_drawing (0, 0, 800, 200) (210, 297) 10 True =
     Inr (Document \<lparr>tiled_paper = (297, 210), tiled_content_w = 277, tiled_content_h = 190,
                     tiled_cols = 3, tiled_rows = 2, tiled_pages = pages\<rparr>)"
proof -
  have sums: "(0 :: real) + 800 = 800" "(0 :: real) + 200 = 200" by simp_all
  show ?thesis
    using landscape_for_wide_drawings
      [where min_x = 0 and min_y = 0 and marks = True, THEN conjunct2, THEN conjunct2]
    unfolding sums .
qed

section \<open>Properties of the crop marks\<close>

lemma seg_length_axis [simp]:
  "seg_length (Line2D (a, b) (c, c)) = \<bar>b - a\<bar>"
  "seg_length (Line2D (a, a) (c, d)) = \<bar>d - c\<bar>"
  by (simp_all add: seg_length_def)

text \<open>
  Claim C10. For every rectangle and every mark length, \<open>add_crop_marks\<close> plots exactly
  eight strokes: two at each corner of the rectangle, in the order bottom left, bottom
  right, top left, top right, the first of each pair horizontal and the second
  vertical, each with one end at its corner. For every mark length that is not negative
  each stroke has that length; in general each stroke has the length \<open>\<bar>mark_len\<bar>\<close>.
\<close>

theorem crop_marks:
  "length (add_crop_marks (x0, x1) (y0, y1) mark_len) = 8
   \<and> list_all2 (\<lambda>l corner. corner \<in> ends l) (add_crop_marks (x0, x1) (y0, y1) mark_len)
        [(x0, y0), (x0, y0), (x1, y0), (x1, y0), (x0, y1), (x0, y1), (x1, y1), (x1, y1)]
   \<and> list_all2 (\<lambda>l across. if across then horizontal l else vertical l)
        (add_crop_marks (x0, x1) (y0, y1) mark_len)
        [True, False, True, False, True, False, True, False]
   \<and> list_all (\<lambda>l. seg_length l = \<bar>mark_len\<bar>) (add_crop_marks (x0, x1) (y0, y1) mark_len)
   \<and> (0 \<le> mark_len \<longrightarrow>
        list_all (\<lambda>l. seg_length l = mark_len) (add_crop_marks (x0, x1) (y0, y1) mark_len))"
  by (simp add: ends_def horizontal_def vertical_def)

theorem crop_marks_witness:
  "length (add_crop_marks (0, 277) (0, 190) 5) = 8
   \<and> list_all (\<lambda>l. seg_length l = 5) (add_crop_marks (0, 277) (0, 190) 5)"
  using crop_marks [of 0 277 0 190 5] by simp

section \<open>Properties of the paper sizes\<close>

lemma upper_names:
  "(name, p) \<in> set paper_sizes \<Longrightarrow> upper name = name"
  by (auto simp: paper_sizes_def upper_def upper_char_def)

lemma paper_sizes_distinct: "distinct (map fst paper_sizes)"
  by (simp add: paper_sizes_def)

text \<open>
  Claim C7, amended. Whatever \<^verbatim>\<open>float\<close> accepts, a result of \<open>parse_paper_size\<close> is the
  pair of the named size its upper-cased argument names, or else the pair of numbers that
  \<^verbatim>\<open>float\<close> reads from the two parts of an argument with exactly one comma; in every
  other case the function raises its \<^verbatim>\<open>ValueError\<close>. Every argument whose upper-cased
  form is one of the eight names gives the pair of that name, in any spelling of upper
  and lower case, and these pairs are positive; the two numbers of a literal are
  returned as they are read, with no test of their sign.
\<close>

theorem parse_paper_size_cases:
  "(parse_paper_size to_float s = Inr p \<longrightarrow>
      (upper s, p) \<in> set paper_sizes
      \<or> (map_of paper_sizes (upper s) = None
         \<and> (\<exists>p0 p1. split CHR '','' (upper s) = [p0, p1]
               \<and> to_float (strip p0) = Some (fst p) \<and> to_float (strip p1) = Some (snd p))))
   \<and> (parse_paper_size to_float s = Inl ex \<longrightarrow> ex = invalid_paper_size (upper s))
   \<and> (map_of paper_sizes (upper s) = Some p \<longrightarrow> parse_paper_size to_float s = Inr p)
   \<and> ((name, p) \<in> set paper_sizes \<longrightarrow>
        parse_paper_size to_float name = Inr p \<and> 0 < fst p \<and> 0 < snd p)
   \<and> (map_of paper_sizes (upper s) = None \<and> split CHR '','' (upper s) = [p0, p1]
        \<and> to_float (strip p0) = Some w \<and> to_float (strip p1) = Some h \<longrightarrow>
        parse_paper_size to_float s = Inr (w, h))
   \<and> paper_sizes =
        [(''A4'', (210, 297)), (''A3'', (297, 420)), (''A2'', (420, 594)), (''A1'', (594, 841)),
         (''A0'', (841, 1189)), (''LETTER'', (216, 279)), (''LEGAL'', (216, 356)),
         (''TABLOID'', (279, 432))]"
proof (intro conjI impI)
  assume "parse_paper_size to_float s = Inr p"
  then show "(upper s, p) \<in> set paper_sizes
      \<or> (map_of paper_sizes (upper s) = None
         \<and> (\<exists>p0 p1. split CHR '','' (upper s) = [p0, p1]
               \<and> to_float (strip p0) = Some (fst p) \<and> to_float (strip p1) = Some (snd p)))"
    unfolding parse_paper_size_def Let_def
    by (auto split: option.splits list.splits dest: map_of_SomeD)
next
  assume "parse_paper_size to_float s = Inl ex"
  then show "ex = invalid_paper_size (upper s)"
    unfolding parse_paper_size_def Let_def
    by (auto split: option.splits list.splits)
next
  assume "map_of paper_sizes (upper s) = Some p"
  then show "parse_paper_size to_float s = Inr p"
    unfolding parse_paper_size_def Let_def by simp
next
  assume named: "(name, p) \<in> set paper_sizes"
  then have "map_of paper_sizes name = Some p"
    using paper_sizes_distinct by (simp add: map_of_eq_Some_iff)
  then show "parse_paper_size to_float name = Inr p"
    unfolding parse_paper_size_def Let_def upper_names [OF named] by simp
  show "0 < fst p" "0 < snd p"
    using named by (auto simp: paper_sizes_def)
next
  assume "map_of paper_sizes (upper s) = None \<and> split CHR '','' (upper s) = [p0, p1]
        \<and> to_float (strip p0) = Some w \<and> to_float (strip p1) = Some h"
  then show "parse_paper_size to_float s = Inr (w, h)"
    unfolding parse_paper_size_def Let_def by simp
next
  show "paper_sizes =
        [(''A4'', (210, 297)), (''A3'', (297, 420)), (''A2'', (420, 594)), (''A1'', (594, 841)),
         (''A0'', (841, 1189)), (''LETTER'', (216, 279)), (''LEGAL'', (216, 356)),
         (''TABLOID'', (279, 432))]"
    by (simp add: paper_sizes_def)
qed

theorem parse_paper_size_cases_witness:
  "parse_paper_size decimal_float ''a4'' = Inr (210, 297)
   \<and> parse_paper_size decimal_float ''Legal'' = Inr (216, 356)
   \<and> parse_paper_size decimal_float ''420, 594.5'' = Inr (420, 594.5)"
proof -
  have "map_of paper_sizes (upper ''a4'') = Some (210, 297)"
    by (simp add: paper_sizes_def upper_def upper_char_def)
  then have a4: "parse_paper_size decimal_float ''a4'' = Inr (210, 297)"
    using parse_paper_size_cases
      [where to_float = decimal_float and s = "''a4''" and p = "(210, 297)"]
    by simp
  have "map_of paper_sizes (upper ''Legal'') = Some (216, 356)"
    by (simp add: paper_sizes_def upper_def upper_char_def)
  then have legal: "parse_paper_size decimal_float ''Legal'' = Inr (216, 356)"
    using parse_paper_size_cases
      [where to_float = decimal_float and s = "''Legal''" and p = "(216, 356)"]
    by simp
  have "map_of paper_sizes (upper ''420, 594.5'') = None"
    "split CHR '','' (upper ''420, 594.5'') = [''420'', '' 594.5'']"
    "decimal_float (strip ''420'') = Some 420"
    "decimal_float (strip '' 594.5'') = Some 594.5"
    by (simp_all add: paper_sizes_def upper_def upper_char_def strip_def is_space_def
        decimal_float_def unsigned_decimal_def digit_of_def)
  then have "parse_paper_size decimal_float ''420, 594.5'' = Inr (420, 594.5)"
    using parse_paper_size_cases
      [where to_float = decimal_float and s = "''420, 594.5''" and ?p0.0 = "''420''"
         and ?p1.0 = "'' 594.5''" and w = 420 and h = "594.5"]
    by simp
  then show ?thesis using a4 legal by simp
qed

text \<open>
  The claim as stated makes every returned width and height positive. The literal
  \<^verbatim>\<open>-5,10\<close> is returned with the width \<open>- 5\<close>.
\<close>

theorem parse_paper_size_counterexample:
  "parse_paper_size decimal_float ''-5,10'' = Inr (- 5, 10)"
  by (simp add: parse_paper_size_def upper_def upper_char_def paper_sizes_def decimal_float_def
      unsigned_decimal_def strip_def is_space_def digit_of_def)

end
